theory Spec2Isabelle
  imports Complex_Main "HOL-Library.Sublist"
begin

section \<open>Python strings\<close>

text \<open>
  A Python \<open>str\<close> is modelled as a \<open>string\<close>, one \<open>char\<close> per code point; the model
  covers the code points below 256. \<open>is_space\<close> is \<open>str.isspace\<close> on that range:
  U+0009..U+000D, U+001C..U+0020, U+0085 and U+00A0.
\<close>

definition is_space :: "char \<Rightarrow> bool" where
  "is_space c \<longleftrightarrow>
     (let n = (of_char c :: nat)
      in (9 \<le> n \<and> n \<le> 13) \<or> (28 \<le> n \<and> n \<le> 32) \<or> n = 133 \<or> n = 160)"

text \<open>\<open>s.strip()\<close>: leading and trailing whitespace removed.\<close>

definition strip :: "string \<Rightarrow> string" where
  "strip s = rev (dropWhile is_space (rev (dropWhile is_space s)))"

text \<open>
  \<open>s.find(sub)\<close>: the lowest index at which \<open>sub\<close> occurs in \<open>s\<close>, and \<open>-1\<close> when it
  does not occur. \<open>find_at\<close> scans from position \<open>i\<close> on.
\<close>

fun find_at :: "string \<Rightarrow> string \<Rightarrow> nat \<Rightarrow> int" where
  "find_at sub [] i = (if sub = [] then int i else - 1)"
| "find_at sub (c # cs) i =
     (if prefix sub (c # cs) then int i else find_at sub cs (Suc i))"

definition find_str :: "string \<Rightarrow> string \<Rightarrow> int" where
  "find_str s sub = find_at sub s 0"

text \<open>
  \<open>s[lo:hi]\<close>: a negative bound counts from the end, and every bound is clamped to the
  length of the string; an empty range gives the empty string.
\<close>

definition clamp_index :: "nat \<Rightarrow> int \<Rightarrow> nat" where
  "clamp_index n i = (if i < 0 then nat (max 0 (int n + i)) else min n (nat i))"

definition slice :: "string \<Rightarrow> int \<Rightarrow> int \<Rightarrow> string" where
  "slice s lo hi =
     (let a = clamp_index (length s) lo; b = clamp_index (length s) hi
      in take (b - a) (drop a s))"

section \<open>Step 7: splitting the synthesis response\<close>

text \<open>
  \<^verbatim>\<open>
  def extract_code(response):
      start = response.find("<python>")
      end = response.find("</python>")
      if start != -1 and end != -1:
          return response[start+6:end].strip(), response[:start].strip()
      return None, response.strip()
  \<close>
\<close>

definition extract_code :: "string \<Rightarrow> string option \<times> string" where
  "extract_code response =
     (let start = find_str response ''<python>'';
          end = find_str response ''</python>''
      in if start \<noteq> - 1 \<and> end \<noteq> - 1
         then (Some (strip (slice response (start + 6) end)), strip (slice response 0 start))
         else (None, strip response))"

text \<open>
  \<^verbatim>\<open>
  code, text = extract_code(content_text)
  print(text)
  if code:
      try:
          exec(code)
      except Exception as e:
          print(f"Error executing code: {e}")
  \<close>
  \<open>executed\<close> is the list of fragments handed to \<open>exec\<close>: \<open>None\<close> and the empty string
  are both falsy.
\<close>

definition executed :: "string \<Rightarrow> string list" where
  "executed content_text =
     (case fst (extract_code content_text) of
        None \<Rightarrow> []
      | Some code \<Rightarrow> (if code = [] then [] else [code]))"

text \<open>The tags that the synthesis request of step 6 asks the model to use.\<close>

definition instructed_open :: string where
  "instructed_open = ''<python_code>''"

definition instructed_close :: string where
  "instructed_close = ''</python_code>''"

section \<open>Exceptions, lists and paths\<close>

text \<open>
  The exceptions the pipeline can meet. \<open>RequestException\<close> is the class that
  \<open>download_pdf\<close> catches; \<open>RuntimeError\<close> stands for what the rasterizer raises on an
  unreadable document, \<open>ClientError\<close> for a failed model call.
\<close>

datatype exn =
    RequestException string
  | OSError string
  | RuntimeError string
  | ClientError string
  | ValueError string
  | IndexError string

fun is_RequestException :: "exn \<Rightarrow> bool" where
  "is_RequestException (RequestException m) = True"
| "is_RequestException e = False"

text \<open>\<open>xs[i]\<close>, where \<open>xs[-1]\<close> is the last element; outside the list it raises.\<close>

definition index :: "'a list \<Rightarrow> int \<Rightarrow> exn + 'a" where
  "index xs i =
     (if 0 \<le> i \<and> i < int (length xs) then Inr (xs ! nat i)
      else if i < 0 \<and> - int (length xs) \<le> i then Inr (xs ! nat (int (length xs) + i))
      else Inl (IndexError ''list index out of range''))"

text \<open>\<open>s.split(sep)\<close> for a separator of one character, as both uses in the source are.\<close>

fun split_chr :: "string \<Rightarrow> char \<Rightarrow> string list" where
  "split_chr [] sep = [[]]"
| "split_chr (c # cs) sep =
     (if c = sep then [] # split_chr cs sep
      else (case split_chr cs sep of
              [] \<Rightarrow> [[c]]
            | w # ws \<Rightarrow> (c # w) # ws))"

text \<open>\<open>os.path.join(a, b)\<close> and \<open>os.path.basename(p)\<close> of \<open>posixpath\<close>.\<close>

definition path_join :: "string \<Rightarrow> string \<Rightarrow> string" where
  "path_join a b =
     (if prefix ''/'' b then b
      else if a = [] \<or> suffix ''/'' a then a @ b
      else a @ ''/'' @ b)"

definition basename :: "string \<Rightarrow> string" where
  "basename p = rev (takeWhile (\<lambda>c. c \<noteq> CHR ''/'') (rev p))"

section \<open>The thread pool\<close>

text \<open>
  \<open>list(executor.map(f, xs))\<close> inside \<open>with ThreadPoolExecutor() as executor\<close>. One
  task per element is submitted and the pool runs tasks in an order of its own. The
  main thread then takes the results in input order; a task's exception is raised again
  when its turn comes, and the result iterator of \<open>Executor.map\<close> then cancels the
  futures that are still pending, so the tasks not yet started at that moment never
  run. The schedule \<open>sched\<close> lists the indices of the tasks that ran, in the order in
  which they ran: each task at most once, every task whose result the main thread
  waited for among them. A task returns its outcome and the outside calls it made.
\<close>

definition schedule_ok :: "nat \<Rightarrow> nat list \<Rightarrow> bool" where
  "schedule_ok n sched \<longleftrightarrow> distinct sched \<and> list_all (\<lambda>i. i < n) sched"

definition futures :: "('a \<Rightarrow> 'r) \<Rightarrow> 'a list \<Rightarrow> nat list \<Rightarrow> 'r option list" where
  "futures f xs sched =
     map (\<lambda>i. if i \<in> set sched then Some (f (xs ! i)) else None) [0..<length xs]"

text \<open>
  Reading the futures in input order. \<open>None\<close>: the main thread waits for a task that
  the schedule never runs, so the schedule is not one of a finished run.
\<close>

fun result_iterator :: "(exn + 'b) option list \<Rightarrow> (exn + 'b list) option" where
  "result_iterator [] = Some (Inr [])"
| "result_iterator (None # fs) = None"
| "result_iterator (Some (Inl e) # fs) = Some (Inl e)"
| "result_iterator (Some (Inr y) # fs) =
     (case result_iterator fs of
        None \<Rightarrow> None
      | Some (Inl e) \<Rightarrow> Some (Inl e)
      | Some (Inr ys) \<Rightarrow> Some (Inr (y # ys)))"

definition executor_map ::
  "('a \<Rightarrow> (exn + 'b) \<times> 'c list) \<Rightarrow> 'a list \<Rightarrow> nat list \<Rightarrow> ((exn + 'b list) \<times> 'c list) option"
where
  "executor_map f xs sched =
     (if \<not> schedule_ok (length xs) sched then None
      else (case result_iterator (futures (\<lambda>x. fst (f x)) xs sched) of
              None \<Rightarrow> None
            | Some r \<Rightarrow> Some (r, concat (map (\<lambda>i. snd (f (xs ! i))) sched))))"

text \<open>
  The outcomes of the tasks taken in input order, as a loop without a pool would: the
  first exception ends it.
\<close>

fun in_input_order :: "(exn + 'b) list \<Rightarrow> exn + 'b list" where
  "in_input_order [] = Inr []"
| "in_input_order (Inl e # rs) = Inl e"
| "in_input_order (Inr y # rs) =
     (case in_input_order rs of
        Inl e \<Rightarrow> Inl e
      | Inr ys \<Rightarrow> Inr (y # ys))"

section \<open>Steps 2 and 3: fetching and rasterizing the documents\<close>

definition pdf_urls :: "string list" where
  "pdf_urls =
     [''https://s2.q4cdn.com/299287126/files/doc_financials/2023/q1/Q1-2023-Amazon-Earnings-Release.pdf'',
      ''https://s2.q4cdn.com/299287126/files/doc_financials/2023/q2/Q2-2023-Amazon-Earnings-Release.pdf'',
      ''https://s2.q4cdn.com/299287126/files/doc_financials/2023/q3/AMZN-Q3-2023-Earnings-Release.pdf'',
      ''https://s2.q4cdn.com/299287126/files/doc_financials/2023/q4/AMZN-Q4-2023-Earnings-Release.pdf'']"

definition QUESTION :: string where
  "QUESTION = ''How did Amazon's net sales change quarter to quarter in the 2023 financial year and what contributed to the changes?''"

definition folder :: string where
  "folder = ''../downloads/pdfs''"

text \<open>
  \<^verbatim>\<open>
  def download_pdf(url, folder):
      try:
          response = requests.get(url, stream=True)
          response.raise_for_status()
          file_name = os.path.join(folder, url.split("/")[-1])
          with open(file_name, "wb") as file:
              for chunk in response.iter_content(chunk_size=8192):
                  file.write(chunk)
          return file_name
      except requests.RequestException as e:
          print(f"Failed to download PDF from {url}: {e}")
          return None
  \<close>
  The transport \<open>http\<close> answers a URL with the content or with the exception that the
  request, the status check, the streaming or the writing of the file raises. The
  function returns the URLs it requested as its calls. Console output is not modelled.
\<close>

type_synonym transport = "string \<Rightarrow> exn + string"

definition download_pdf :: "transport \<Rightarrow> string \<Rightarrow> string \<Rightarrow> (exn + string option) \<times> string list" where
  "download_pdf http url dir =
     ((case http url of
         Inl e \<Rightarrow> (if is_RequestException e then Inr None else Inl e)
       | Inr body \<Rightarrow>
           (case index (split_chr url CHR ''/'') (- 1) of
              Inl e \<Rightarrow> Inl e
            | Inr name \<Rightarrow> Inr (Some (path_join dir name)))),
      [url])"


text \<open>
  \<^verbatim>\<open>
  def pdf_to_base64_pngs(pdf_path, quality=75, max_size=(1024, 1024)):
      base64_encoded_pngs = []
      with fitz.open(pdf_path) as doc:
          for page in doc:
              ... render, shrink to max_size, save as PNG, base64 ...
              base64_encoded_pngs.append(base64_encoded)
      return base64_encoded_pngs
  \<close>
  \<open>fitz_open\<close> gives the pages of the file at a path, or raises; \<open>encode\<close> is the body of
  the loop for one page. Neither exception is caught.
\<close>

fun encode_pages :: "('page \<Rightarrow> exn + string) \<Rightarrow> 'page list \<Rightarrow> string list \<Rightarrow> exn + string list" where
  "encode_pages encode [] base64_encoded_pngs = Inr base64_encoded_pngs"
| "encode_pages encode (page # doc) base64_encoded_pngs =
     (case encode page of
        Inl e \<Rightarrow> Inl e
      | Inr base64_encoded \<Rightarrow> encode_pages encode doc (base64_encoded_pngs @ [base64_encoded]))"

definition pdf_to_base64_pngs ::
  "(string \<Rightarrow> exn + 'page list) \<Rightarrow> ('page \<Rightarrow> exn + string) \<Rightarrow> string \<Rightarrow> exn + string list"
where
  "pdf_to_base64_pngs fitz_open encode pdf_path =
     (case fitz_open pdf_path of
        Inl e \<Rightarrow> Inl e
      | Inr doc \<Rightarrow> encode_pages encode doc [])"

text \<open>
  \<^verbatim>\<open>
  def process_pdf(url, folder):
      pdf_path = download_pdf(url, folder)
      if pdf_path:
          return pdf_path, pdf_to_base64_pngs(pdf_path)
      return None
  \<close>
  \<open>None\<close> and the empty path are both falsy.
\<close>

definition process_pdf ::
  "transport \<Rightarrow> (string \<Rightarrow> exn + 'page list) \<Rightarrow> ('page \<Rightarrow> exn + string) \<Rightarrow> string \<Rightarrow> string
     \<Rightarrow> (exn + (string \<times> string list) option) \<times> string list"
where
  "process_pdf http fitz_open encode url dir =
     (case download_pdf http url dir of
        (Inl e, calls) \<Rightarrow> (Inl e, calls)
      | (Inr None, calls) \<Rightarrow> (Inr None, calls)
      | (Inr (Some pdf_path), calls) \<Rightarrow>
          (if pdf_path = [] then (Inr None, calls)
           else (case pdf_to_base64_pngs fitz_open encode pdf_path of
                   Inl e \<Rightarrow> (Inl e, calls)
                 | Inr pngs \<Rightarrow> (Inr (Some (pdf_path, pngs)), calls))))"

text \<open>
  \<^verbatim>\<open>
  with ThreadPoolExecutor() as executor:
      pdf_results = list(executor.map(
          process_pdf, pdf_urls, [folder] * len(pdf_urls)))

      # Remove any None values (failed downloads or conversions) from results
  pdf_results = [r for r in pdf_results if r is not None]
  \<close>
\<close>

definition pdf_stage ::
  "transport \<Rightarrow> (string \<Rightarrow> exn + 'page list) \<Rightarrow> ('page \<Rightarrow> exn + string) \<Rightarrow> string list \<Rightarrow> string
     \<Rightarrow> nat list \<Rightarrow> ((exn + (string \<times> string list) list) \<times> string list) option"
where
  "pdf_stage http fitz_open encode urls dir sched =
     (case executor_map (\<lambda>url. process_pdf http fitz_open encode url dir) urls sched of
        None \<Rightarrow> None
      | Some (Inl e, calls) \<Rightarrow> Some (Inl e, calls)
      | Some (Inr pdf_results, calls) \<Rightarrow> Some (Inr (List.map_filter id pdf_results), calls))"

section \<open>The model endpoint\<close>

datatype content_part = Text string | Image string string

record message =
  role :: string
  content :: "content_part list"

record inference_config =
  max_new_tokens :: nat
  top_p :: rat
  top_k :: nat
  temperature :: rat

record request =
  messages :: "message list"
  inferenceConfig :: "inference_config option"

text \<open>
  \<open>client.invoke_model(modelId=..., body=...)\<close> followed by the reading of
  \<open>["output"]["message"]["content"][0]["text"]\<close>: the text of the answer, or the
  exception that any of this raises. A call is the model identifier with the request.
\<close>

type_synonym call = "string \<times> request"

type_synonym client = "string \<Rightarrow> request \<Rightarrow> exn + string"

definition nl :: string where
  "nl = [CHR 0x0A]"

definition dq :: string where
  "dq = [CHR 0x22]"

section \<open>Step 4: the planner\<close>

datatype pyval = PyNone | PyBool bool | PyInt int | PyStr string | PyList "pyval list"

fun truthy :: "pyval \<Rightarrow> bool" where
  "truthy PyNone = False"
| "truthy (PyBool b) = b"
| "truthy (PyInt i) = (i \<noteq> 0)"
| "truthy (PyStr s) = (s \<noteq> [])"
| "truthy (PyList vs) = (vs \<noteq> [])"

fun isinstance_str :: "pyval \<Rightarrow> bool" where
  "isinstance_str (PyStr s) = True"
| "isinstance_str v = False"

fun str_of :: "pyval \<Rightarrow> string" where
  "str_of (PyStr s) = s"
| "str_of v = []"

definition planner_prompt :: "string \<Rightarrow> string" where
  "planner_prompt question =
     ''Based on the following question,'' @ nl @
     replicate 28 CHR '' '' @ ''please generate a specific prompt for an LLM agent to extract relevant information from an earning's report PDF.'' @ nl @
     replicate 28 CHR '' '' @ ''Each sub-agent only has access to a single quarter's earnings report.'' @ nl @
     replicate 28 CHR '' '' @ ''Output only the prompt and nothing else.'' @ nl @
     replicate 28 CHR '' '' @ nl @ nl @ ''Question: '' @ question"

text \<open>
  \<^verbatim>\<open>
  def generate_prompt_for_lite(question: str) -> Optional[str]:
      if not question or not isinstance(question, str):
          raise ValueError("Question must be a non-empty string")
      try:
          request_body = {"messages": [...], "inferenceConfig": {...}}
          response = client.invoke_model(modelId="us.amazon.nova-pro-v1:0", ...)
          ...
          return content_text
      except Exception as e:
          print(f"Error generating prompt: {str(e)}")
          return None
  \<close>
  The result comes with the calls made to the endpoint.
\<close>

definition generate_prompt_for_lite :: "client \<Rightarrow> pyval \<Rightarrow> (exn + string option) \<times> call list" where
  "generate_prompt_for_lite client question =
     (if \<not> truthy question \<or> \<not> isinstance_str question
      then (Inl (ValueError ''Question must be a non-empty string''), [])
      else
        (let request_body =
               \<lparr>messages = [\<lparr>role = ''user'', content = [Text (planner_prompt (str_of question))]\<rparr>],
                inferenceConfig =
                  Some \<lparr>max_new_tokens = 300, top_p = 9 / 10, top_k = 20, temperature = 7 / 10\<rparr>\<rparr>
         in (case client ''us.amazon.nova-pro-v1:0'' request_body of
               Inl e \<Rightarrow> Inr None
             | Inr content_text \<Rightarrow> Inr (Some content_text),
             [(''us.amazon.nova-pro-v1:0'', request_body)])))"

section \<open>Step 5: the workers and the combined context\<close>

text \<open>
  \<^verbatim>\<open>
  def extract_info(pdf_path, base64_encoded_pngs, lite_prompt):
      request_body = {"messages": [{"role": "user", "content": [
          {"image": {"source": {"bytes": base64_encoded_png}, "format": "png"}}
              for base64_encoded_png in base64_encoded_pngs
          ] + [{"text": lite_prompt}]}]}
      response = client.invoke_model(modelId="us.amazon.nova-lite-v1:0", ...)
      ...
      return model_response["output"]["message"]["content"][0]["text"], pdf_path
  \<close>
  \<open>worker_request\<close> is the \<open>request_body\<close> of \<open>extract_info\<close>.
\<close>

definition worker_request :: "string list \<Rightarrow> string \<Rightarrow> request" where
  "worker_request base64_encoded_pngs lite_prompt =
     \<lparr>messages =
        [\<lparr>role = ''user'',
          content = map (\<lambda>base64_encoded_png. Image base64_encoded_png ''png'') base64_encoded_pngs
                    @ [Text lite_prompt]\<rparr>],
      inferenceConfig = None\<rparr>"

definition extract_info ::
  "client \<Rightarrow> string \<Rightarrow> string list \<Rightarrow> string \<Rightarrow> (exn + string \<times> string) \<times> call list"
where
  "extract_info client pdf_path base64_encoded_pngs lite_prompt =
     (let request_body = worker_request base64_encoded_pngs lite_prompt
      in (case client ''us.amazon.nova-lite-v1:0'' request_body of
            Inl e \<Rightarrow> Inl e
          | Inr text \<Rightarrow> Inr (text, pdf_path),
          [(''us.amazon.nova-lite-v1:0'', request_body)]))"

text \<open>
  \<^verbatim>\<open>
  extracted_info = ""
  for info, pdf_path in extracted_info_list:
      quarter = os.path.basename(pdf_path).split("-")[1]  # Extracting quarter from filename
      extracted_info += f"<info quarter=\"{quarter}\">{info}</info>\n"
  \<close>
\<close>

definition quarter_of :: "string \<Rightarrow> exn + string" where
  "quarter_of pdf_path = index (split_chr (basename pdf_path) CHR ''-'') 1"

definition info_block :: "string \<Rightarrow> string \<Rightarrow> string" where
  "info_block quarter info =
     ''<info quarter='' @ dq @ quarter @ dq @ ''>'' @ info @ ''</info>'' @ nl"

fun combine :: "(string \<times> string) list \<Rightarrow> string \<Rightarrow> exn + string" where
  "combine [] extracted_info = Inr extracted_info"
| "combine ((info, pdf_path) # rest) extracted_info =
     (case quarter_of pdf_path of
        Inl e \<Rightarrow> Inl e
      | Inr quarter \<Rightarrow> combine rest (extracted_info @ info_block quarter info))"

text \<open>
  \<^verbatim>\<open>
  with ThreadPoolExecutor() as executor:
      extracted_info_list = list(executor.map(
          lambda x: extract_info(x[0], x[1], lite_prompt), pdf_results))
  \<close>
  followed by the loop above: the combined context, or the exception, with the worker
  calls that were made.
\<close>

definition worker_stage ::
  "client \<Rightarrow> string \<Rightarrow> (string \<times> string list) list \<Rightarrow> nat list \<Rightarrow> ((exn + string) \<times> call list) option"
where
  "worker_stage client lite_prompt pdf_results sched =
     (case executor_map (\<lambda>x. extract_info client (fst x) (snd x) lite_prompt) pdf_results sched of
        None \<Rightarrow> None
      | Some (Inl e, calls) \<Rightarrow> Some (Inl e, calls)
      | Some (Inr extracted_info_list, calls) \<Rightarrow> Some (combine extracted_info_list [], calls))"

section \<open>Step 6: the synthesis request\<close>

definition synthesis_prompt :: "string \<Rightarrow> string \<Rightarrow> string" where
  "synthesis_prompt question extracted_info =
     ''Based on the following extracted information from Amazon's earnings releases, '' @ nl @
     replicate 13 CHR '' '' @ ''please provide a response to the question: '' @ question @ nl @ nl @ nl @
     replicate 13 CHR '' '' @ ''Also, please generate Python code using the matplotlib library to accompany your response. '' @ nl @
     replicate 13 CHR '' '' @ ''Enclose the code within '' @ instructed_open @ '' tags.'' @ nl @ nl @
     ''Extracted Information:'' @ nl @ extracted_info"

definition synthesis_request :: "string \<Rightarrow> string \<Rightarrow> request" where
  "synthesis_request question extracted_info =
     \<lparr>messages = [\<lparr>role = ''user'', content = [Text (synthesis_prompt question extracted_info)]\<rparr>],
      inferenceConfig = None\<rparr>"

section \<open>Stub collaborators for the examples\<close>

text \<open>
  An endpoint that answers a request with the bytes of its first image and raises on a
  request without one, an endpoint on which every call raises, a transport that
  delivers every URL but those under \<open>https://down/\<close>, and a rasterizer that cannot open
  the files whose name starts with \<open>corrupt\<close> and gives one page for any other.
\<close>

definition echo_client :: client where
  "echo_client model body =
     (case messages body of
        [] \<Rightarrow> Inl (ClientError ''no message'')
      | m # ms \<Rightarrow>
          (case content m of
             Image bytes format # parts \<Rightarrow> Inr bytes
           | _ \<Rightarrow> Inl (ClientError ''no image'')))"

definition failing_client :: client where
  "failing_client model body = Inl (ClientError ''throttled'')"

definition stub_http :: transport where
  "stub_http url =
     (if prefix ''https://down/'' url then Inl (RequestException ''503'') else Inr ''%PDF'')"


definition stub_fitz_open :: "string \<Rightarrow> exn + string list" where
  "stub_fitz_open pdf_path =
     (if prefix ''corrupt'' (basename pdf_path) then Inl (RuntimeError ''cannot open broken document'')
      else Inr [''page of '' @ basename pdf_path])"

definition stub_encode :: "string \<Rightarrow> exn + string" where
  "stub_encode page = Inr page"

section \<open>Facts about find\<close>

lemma find_at_absent: "find_at sub s i = - 1 \<longleftrightarrow> \<not> sublist sub s"
proof (induction s arbitrary: i)
  case Nil
  show ?case by simp
next
  case (Cons c cs)
  show ?case
  proof (cases "prefix sub (c # cs)")
    case True
    then show ?thesis by (simp add: sublist_Cons_right)
  next
    case False
    then show ?thesis using Cons.IH [of "Suc i"] by (simp add: sublist_Cons_right)
  qed
qed

lemma find_str_absent: "find_str s sub = - 1 \<longleftrightarrow> \<not> sublist sub s"
  by (simp add: find_str_def find_at_absent)

lemma prefix_in_front:
  assumes "prefix sub (pre @ sub @ post)" and "pre \<noteq> []"
  shows "sublist sub (pre @ butlast sub)"
proof (cases "sub = []")
  case True
  then show ?thesis by simp
next
  case False
  from assms(1) have "sub = take (length sub) (pre @ sub @ post)"
    by (metis append_eq_conv_conj prefix_def)
  also have "\<dots> = take (length sub) (pre @ butlast sub)"
  proof -
    have "length sub \<le> length (pre @ butlast sub)"
      using assms(2) False by (cases pre) auto
    moreover have "pre @ sub @ post = (pre @ butlast sub) @ (last sub # post)"
      using False by simp
    ultimately show ?thesis by (metis append.right_neutral diff_is_0_eq take0 take_append)
  qed
  finally have "prefix sub (pre @ butlast sub)"
    by (metis take_is_prefix)
  then show ?thesis by (rule prefix_imp_sublist)
qed

lemma find_at_first:
  assumes "\<not> sublist sub (pre @ butlast sub)"
  shows "find_at sub (pre @ sub @ post) i = int (i + length pre)"
  using assms
proof (induction pre arbitrary: i)
  case Nil
  have "prefix sub (sub @ post)" by simp
  then show ?case by (cases "sub @ post") simp_all
next
  case (Cons c cs)
  have np: "\<not> prefix sub ((c # cs) @ sub @ post)"
    using Cons.prems prefix_in_front [of sub "c # cs" post] by blast
  have "\<not> sublist sub (cs @ butlast sub)"
    using Cons.prems by (simp add: sublist_Cons_right)
  from Cons.IH [OF this, of "Suc i"] np show ?case by simp
qed

lemma find_str_first:
  "\<not> sublist sub (pre @ butlast sub) \<Longrightarrow> find_str (pre @ sub @ post) sub = int (length pre)"
  by (simp add: find_str_def find_at_first)

lemma slice_nonneg:
  "slice s (int a) (int b) =
     take (min (length s) b - min (length s) a) (drop (min (length s) a) s)"
  by (simp add: slice_def clamp_index_def Let_def)

section \<open>The parser of the synthesis response\<close>

text \<open>
  What \<open>extract_code\<close> returns on a response whose first \<open><python>\<close> is followed by its
  first \<open></python>\<close>: the slice starts at \<open>start+6\<close>, two characters before the end of the
  eight-character start delimiter, so the fragment comes back with \<open>n>\<close> in front. The
  narrative is the trimmed text before the start delimiter.
\<close>

lemma extract_code_delimited:
  assumes r: "response = pre @ ''<python>'' @ F @ ''</python>'' @ post"
    and s: "\<not> sublist ''<python>'' (pre @ ''<python'')"
    and e: "\<not> sublist ''</python>'' (pre @ ''<python>'' @ F @ ''</python'')"
  shows "extract_code response = (Some (strip (''n>'' @ F)), strip pre)"
proof -
  have st: "find_str response ''<python>'' = int (length pre)"
    unfolding r using s find_str_first [of "''<python>''" pre "F @ ''</python>'' @ post"] by simp
  have "find_str ((pre @ ''<python>'' @ F) @ ''</python>'' @ post) ''</python>''
          = int (length (pre @ ''<python>'' @ F))"
    using e by (intro find_str_first) simp
  then have en: "find_str response ''</python>'' = int (length pre + 8 + length F)"
    unfolding r by simp
  have n: "slice response 0 (int (length pre)) = pre"
    using slice_nonneg [of response 0 "length pre"] by (simp add: r)
  have "slice response (int (length pre + 6)) (int (length pre + 8 + length F)) = ''n>'' @ F"
    unfolding slice_nonneg by (simp add: r)
  then have c: "slice response (int (length pre) + 6) (int (length pre + 8 + length F)) = ''n>'' @ F"
    by (simp add: add.commute)
  show ?thesis
    unfolding extract_code_def Let_def st en using n c by simp
qed

text \<open>
  C1. The round trip "delimiters around a fragment F give back F" fails on the code: on
  the response below, whose fragment is \<open>plot()\<close>, the extracted code is \<open>n>plot()\<close>.
  The narrative half of the claim holds there: it is the text before the start
  delimiter, trimmed.
\<close>

theorem extract_code_keeps_delimiter_tail:
  "extract_code ''Net sales rose. <python>plot()</python>''
     = (Some ''n>plot()'', ''Net sales rose.'')"
  by code_simp

text \<open>
  C2. A response that encloses its code in \<open><python_code>\<close> ... \<open></python_code>\<close>, the tags
  that the synthesis request asks for, and that contains neither \<open><python>\<close> nor
  \<open></python>\<close>, yields no code fragment: the whole response, trimmed, is the narrative,
  and nothing is executed.
\<close>

theorem extract_code_instructed_tags:
  assumes "response = pre @ instructed_open @ F @ instructed_close @ post"
    and "\<not> sublist ''<python>'' response"
    and "\<not> sublist ''</python>'' response"
  shows "extract_code response = (None, strip response) \<and> executed response = []"
proof -
  from assms(2) have "find_str response ''<python>'' = - 1"
    by (simp add: find_str_absent)
  then have "extract_code response = (None, strip response)"
    by (simp add: extract_code_def)
  then show ?thesis by (simp add: executed_def)
qed

theorem extract_code_instructed_tags_witness:
  "extract_code ''Net sales rose. <python_code>plot()</python_code> Done.''
     = (None, strip ''Net sales rose. <python_code>plot()</python_code> Done.'')
   \<and> executed ''Net sales rose. <python_code>plot()</python_code> Done.'' = []"
proof -
  have r: "''Net sales rose. <python_code>plot()</python_code> Done.''
             = ''Net sales rose. '' @ instructed_open @ ''plot()'' @ instructed_close @ '' Done.''"
    by (simp add: instructed_open_def instructed_close_def)
  have a: "\<not> sublist ''<python>'' ''Net sales rose. <python_code>plot()</python_code> Done.''"
    by code_simp
  have b: "\<not> sublist ''</python>'' ''Net sales rose. <python_code>plot()</python_code> Done.''"
    by code_simp
  show ?thesis by (rule extract_code_instructed_tags [OF r a b])
qed

text \<open>
  C7. When the start delimiter or the end delimiter does not occur in the response,
  \<open>extract_code\<close> returns no code fragment, the narrative is the whole response trimmed,
  and nothing is handed to \<open>exec\<close>.
\<close>

theorem extract_code_missing_delimiter:
  assumes "\<not> sublist ''<python>'' response \<or> \<not> sublist ''</python>'' response"
  shows "extract_code response = (None, strip response) \<and> executed response = []"
proof -
  from assms have "find_str response ''<python>'' = - 1 \<or> find_str response ''</python>'' = - 1"
    by (simp add: find_str_absent)
  then have "extract_code response = (None, strip response)"
    by (auto simp: extract_code_def)
  then show ?thesis by (simp add: executed_def)
qed

theorem extract_code_missing_delimiter_witness:
  "extract_code ''  Net sales rose. <python>plot() '' = (None, ''Net sales rose. <python>plot()'')
   \<and> executed ''  Net sales rose. <python>plot() '' = []"
proof -
  have a: "\<not> sublist ''</python>'' ''  Net sales rose. <python>plot() ''"
    by code_simp
  have s: "strip ''  Net sales rose. <python>plot() '' = ''Net sales rose. <python>plot()''"
    by code_simp
  from a have "\<not> sublist ''<python>'' ''  Net sales rose. <python>plot() ''
                 \<or> \<not> sublist ''</python>'' ''  Net sales rose. <python>plot() ''"
    by (rule disjI2)
  from extract_code_missing_delimiter [OF this] s show ?thesis by simp
qed

section \<open>Facts about the thread pool\<close>

lemma result_iterator_reads:
  "list_all2 (\<lambda>fu out. fu = None \<or> fu = Some out) fs outs \<Longrightarrow> result_iterator fs = Some r
     \<Longrightarrow> r = in_input_order outs"
proof (induction fs outs arbitrary: r rule: list_all2_induct)
  case Nil
  then show ?case by simp
next
  case (Cons fu fs out outs)
  show ?case
  proof (cases out)
    case (Inl e)
    with Cons.hyps(1) Cons.prems show ?thesis by auto
  next
    case (Inr y)
    with Cons.hyps(1) Cons.prems have fu: "fu = Some (Inr y)" by auto
    show ?thesis
    proof (cases "result_iterator fs")
      case None
      with fu Cons.prems show ?thesis by simp
    next
      case (Some r')
      with Cons.IH have "r' = in_input_order outs" by simp
      with fu Some Inr Cons.prems show ?thesis by (auto split: sum.splits)
    qed
  qed
qed

lemma result_iterator_complete: "result_iterator (map Some outs) = Some (in_input_order outs)"
proof (induction outs)
  case Nil
  show ?case by simp
next
  case (Cons out outs)
  then show ?case by (cases out) (auto split: sum.splits)
qed

lemma result_iterator_all_ran:
  "result_iterator fs = Some (Inr ys) \<Longrightarrow> None \<notin> set fs"
proof (induction fs arbitrary: ys)
  case Nil
  show ?case by simp
next
  case (Cons fu fs)
  show ?case
  proof (cases fu)
    case None
    with Cons.prems show ?thesis by simp
  next
    case (Some out)
    with Cons.prems obtain y where y: "out = Inr y" by (cases out) auto
    with Some Cons.prems obtain ys' where "result_iterator fs = Some (Inr ys')"
      by (auto split: option.splits sum.splits)
    with Cons.IH Some show ?thesis by auto
  qed
qed

lemma futures_outcomes:
  "list_all2 (\<lambda>fu out. fu = None \<or> fu = Some out) (futures f xs sched) (map f xs)"
  by (simp add: futures_def list_all2_conv_all_nth)

lemma futures_complete:
  "{..<length xs} \<subseteq> set sched \<Longrightarrow> futures f xs sched = map Some (map f xs)"
  by (auto simp: futures_def intro!: nth_equalityI)

lemma futures_all_ran:
  assumes "None \<notin> set (futures f xs sched)" and "i < length xs"
  shows "i \<in> set sched"
proof (rule ccontr)
  assume "i \<notin> set sched"
  with assms(2) have "futures f xs sched ! i = None" by (simp add: futures_def)
  moreover have "i < length (futures f xs sched)" using assms(2) by (simp add: futures_def)
  ultimately have "None \<in> set (futures f xs sched)" by (metis nth_mem)
  with assms(1) show False by simp
qed

lemma schedule_ok_set: "schedule_ok n sched \<Longrightarrow> set sched \<subseteq> {..<n}"
  by (auto simp: schedule_ok_def list_all_iff)

lemma executor_map_returns:
  assumes "executor_map f xs sched = Some (r, calls)"
  shows "r = in_input_order (map (\<lambda>x. fst (f x)) xs)"
    and "calls = concat (map (\<lambda>i. snd (f (xs ! i))) sched)"
    and "schedule_ok (length xs) sched"
proof -
  from assms show ok: "schedule_ok (length xs) sched"
    by (auto simp: executor_map_def split: if_splits)
  from assms ok have ri: "result_iterator (futures (\<lambda>x. fst (f x)) xs sched) = Some r"
    and c: "calls = concat (map (\<lambda>i. snd (f (xs ! i))) sched)"
    by (auto simp: executor_map_def split: option.splits)
  from c show "calls = concat (map (\<lambda>i. snd (f (xs ! i))) sched)" .
  from result_iterator_reads [OF futures_outcomes ri]
  show "r = in_input_order (map (\<lambda>x. fst (f x)) xs)" .
qed

lemma executor_map_complete:
  assumes "distinct sched" and "set sched = {..<length xs}"
  shows "executor_map f xs sched
           = Some (in_input_order (map (\<lambda>x. fst (f x)) xs), concat (map (\<lambda>i. snd (f (xs ! i))) sched))"
proof -
  from assms have ok: "schedule_ok (length xs) sched"
    by (auto simp: schedule_ok_def list_all_iff)
  from assms(2) have "futures (\<lambda>x. fst (f x)) xs sched = map Some (map (\<lambda>x. fst (f x)) xs)"
    by (intro futures_complete) simp
  then have "result_iterator (futures (\<lambda>x. fst (f x)) xs sched)
               = Some (in_input_order (map (\<lambda>x. fst (f x)) xs))"
    by (simp only: result_iterator_complete)
  with ok show ?thesis by (simp add: executor_map_def)
qed

lemma executor_map_all_ran:
  assumes "executor_map f xs sched = Some (Inr ys, calls)"
  shows "set sched = {..<length xs}"
proof -
  from assms have ok: "schedule_ok (length xs) sched"
    by (auto simp: executor_map_def split: if_splits)
  with assms have "result_iterator (futures (\<lambda>x. fst (f x)) xs sched) = Some (Inr ys)"
    by (auto simp: executor_map_def split: option.splits)
  then have "None \<notin> set (futures (\<lambda>x. fst (f x)) xs sched)" by (rule result_iterator_all_ran)
  then have "{..<length xs} \<subseteq> set sched" using futures_all_ran by blast
  with schedule_ok_set [OF ok] show ?thesis by blast
qed

lemma in_input_order_all:
  "\<forall>x\<in>set zs. g x = Inr (h x) \<Longrightarrow> in_input_order (map g zs) = Inr (map h zs)"
  by (induction zs) simp_all

lemma in_input_order_failure:
  "Inl e \<in> set outs \<Longrightarrow> \<exists>e'. in_input_order outs = Inl e'"
proof (induction outs)
  case Nil
  then show ?case by simp
next
  case (Cons out outs)
  then show ?case by (cases out) (auto split: sum.splits)
qed

lemma combine_blocks:
  "\<forall>i\<in>set js. quarter_of (path i) = Inr (quarter i) \<Longrightarrow>
     combine (map (\<lambda>i. (info i, path i)) js) acc
       = Inr (acc @ concat (map (\<lambda>i. info_block (quarter i) (info i)) js))"
  by (induction js arbitrary: acc) simp_all

section \<open>The planner's precondition\<close>

text \<open>
  C6. A question that is not a non-empty string makes \<open>generate_prompt_for_lite\<close> raise
  \<open>ValueError\<close>, and no call to the endpoint is made.
\<close>

theorem generate_prompt_rejects_bad_question:
  assumes "\<not> (\<exists>s. question = PyStr s \<and> s \<noteq> [])"
  shows "generate_prompt_for_lite client question
           = (Inl (ValueError ''Question must be a non-empty string''), [])"
  using assms by (cases question) (simp_all add: generate_prompt_for_lite_def)

theorem generate_prompt_rejects_bad_question_witness:
  "generate_prompt_for_lite (\<lambda>model body. Inr ''Extract the net sales.'') (PyStr [])
     = (Inl (ValueError ''Question must be a non-empty string''), [])
   \<and> generate_prompt_for_lite (\<lambda>model body. Inr ''Extract the net sales.'') (PyInt 7)
     = (Inl (ValueError ''Question must be a non-empty string''), [])"
  using generate_prompt_rejects_bad_question [of "PyStr []"]
    generate_prompt_rejects_bad_question [of "PyInt 7"]
  by simp

section \<open>The worker stage\<close>

lemma worker_outcomes:
  "map (\<lambda>x. fst (extract_info client (fst x) (snd x) lite_prompt)) pdf_results
     = map (\<lambda>i. case client ''us.amazon.nova-lite-v1:0'' (worker_request (snd (pdf_results ! i)) lite_prompt) of
                   Inl e \<Rightarrow> Inl e
                 | Inr text \<Rightarrow> Inr (text, fst (pdf_results ! i)))
           [0..<length pdf_results]"
  by (rule nth_equalityI) (simp_all add: extract_info_def Let_def split: sum.splits)

lemma worker_stage_returns:
  assumes "worker_stage client lite_prompt pdf_results sched = Some (r, calls)"
  shows "r = (case in_input_order (map (\<lambda>x. fst (extract_info client (fst x) (snd x) lite_prompt)) pdf_results) of
                Inl e \<Rightarrow> Inl e
              | Inr extracted_info_list \<Rightarrow> combine extracted_info_list [])"
    and "calls = map (\<lambda>i. (''us.amazon.nova-lite-v1:0'', worker_request (snd (pdf_results ! i)) lite_prompt)) sched"
    and "schedule_ok (length pdf_results) sched"
    and "\<not> isl (in_input_order (map (\<lambda>x. fst (extract_info client (fst x) (snd x) lite_prompt)) pdf_results))
           \<Longrightarrow> set sched = {..<length pdf_results}"
proof -
  let ?f = "\<lambda>x. extract_info client (fst x) (snd x) lite_prompt"
  from assms obtain r' where em: "executor_map ?f pdf_results sched = Some (r', calls)"
    and r: "r = (case r' of Inl e \<Rightarrow> Inl e | Inr l \<Rightarrow> combine l [])"
    by (auto simp: worker_stage_def split: option.splits sum.splits)
  note E = executor_map_returns [OF em]
  from E(1) r show "r = (case in_input_order (map (\<lambda>x. fst (?f x)) pdf_results) of
                Inl e \<Rightarrow> Inl e | Inr extracted_info_list \<Rightarrow> combine extracted_info_list [])"
    by simp
  from E(2) show "calls = map (\<lambda>i. (''us.amazon.nova-lite-v1:0'', worker_request (snd (pdf_results ! i)) lite_prompt)) sched"
    by (simp add: extract_info_def Let_def)
  from E(3) show "schedule_ok (length pdf_results) sched" .
  assume "\<not> isl (in_input_order (map (\<lambda>x. fst (?f x)) pdf_results))"
  with E(1) have "\<not> isl r'" by simp
  then obtain ys where "r' = Inr ys" by (cases r') simp_all
  with em show "set sched = {..<length pdf_results}" using executor_map_all_ran by blast
qed

lemma worker_stage_complete:
  assumes "distinct sched" and "set sched = {..<length pdf_results}"
  shows "\<exists>r calls. worker_stage client lite_prompt pdf_results sched = Some (r, calls)"
  using executor_map_complete [OF assms, of "\<lambda>x. extract_info client (fst x) (snd x) lite_prompt"]
  by (auto simp: worker_stage_def split: sum.splits)

text \<open>
  C3. Two finished runs of the worker stage over the same documents, whatever the order
  in which the pool ran the tasks, give the same combined context (or the same
  exception). When every call returns and every label can be read off the file name, the
  combined context is, for the documents in input order, the text
  \<open><info quarter="L">T</info>\<close> and a newline, where \<open>L\<close> is the label of the document
  and \<open>T\<close> the answer to its request.
\<close>

theorem combined_context_in_input_order:
  assumes "worker_stage client lite_prompt pdf_results sched1 = Some (r1, calls1)"
    and "worker_stage client lite_prompt pdf_results sched2 = Some (r2, calls2)"
  shows "r1 = r2
    \<and> ((\<forall>i<length pdf_results.
           client ''us.amazon.nova-lite-v1:0'' (worker_request (snd (pdf_results ! i)) lite_prompt) = Inr (info i)
           \<and> quarter_of (fst (pdf_results ! i)) = Inr (quarter i))
        \<longrightarrow> r1 = Inr (concat (map (\<lambda>i. ''<info quarter='' @ [CHR 0x22] @ quarter i @ [CHR 0x22] @ ''>''
                                         @ info i @ ''</info>'' @ [CHR 0x0A])
                                  [0..<length pdf_results])))"
proof (intro conjI impI)
  show "r1 = r2"
    using worker_stage_returns(1) [OF assms(1)] worker_stage_returns(1) [OF assms(2)] by simp
next
  assume all: "\<forall>i<length pdf_results.
           client ''us.amazon.nova-lite-v1:0'' (worker_request (snd (pdf_results ! i)) lite_prompt) = Inr (info i)
           \<and> quarter_of (fst (pdf_results ! i)) = Inr (quarter i)"
  let ?n = "length pdf_results"
  have "map (\<lambda>x. fst (extract_info client (fst x) (snd x) lite_prompt)) pdf_results
          = map (\<lambda>i. Inr (info i, fst (pdf_results ! i))) [0..<?n]"
    unfolding worker_outcomes using all by simp
  moreover have "in_input_order (map (\<lambda>i. Inr (info i, fst (pdf_results ! i))) [0..<?n])
          = Inr (map (\<lambda>i. (info i, fst (pdf_results ! i))) [0..<?n])"
    by (rule in_input_order_all) simp
  ultimately have "r1 = combine (map (\<lambda>i. (info i, fst (pdf_results ! i))) [0..<?n]) []"
    using worker_stage_returns(1) [OF assms(1)] by simp
  also have "\<dots> = Inr ([] @ concat (map (\<lambda>i. info_block (quarter i) (info i)) [0..<?n]))"
    using all by (intro combine_blocks) simp
  also have "\<dots> = Inr (concat (map (\<lambda>i. ''<info quarter='' @ [CHR 0x22] @ quarter i @ [CHR 0x22] @ ''>''
                                         @ info i @ ''</info>'' @ [CHR 0x0A]) [0..<?n]))"
    by (simp add: info_block_def dq_def nl_def)
  finally show "r1 = Inr (concat (map (\<lambda>i. ''<info quarter='' @ [CHR 0x22] @ quarter i @ [CHR 0x22] @ ''>''
                                         @ info i @ ''</info>'' @ [CHR 0x0A]) [0..<?n]))" .
qed

theorem combined_context_in_input_order_witness:
  "worker_stage echo_client ''p'' [(''d/AMZN-Q1-2023.pdf'', [''one'', ''uno'']), (''d/AMZN-Q2-2023.pdf'', [''two''])] [0, 1]
     = Some (Inr (''<info quarter='' @ [CHR 0x22] @ ''Q1'' @ [CHR 0x22] @ ''>one</info>'' @ [CHR 0x0A]
                  @ ''<info quarter='' @ [CHR 0x22] @ ''Q2'' @ [CHR 0x22] @ ''>two</info>'' @ [CHR 0x0A]),
             [(''us.amazon.nova-lite-v1:0'', worker_request [''one'', ''uno''] ''p''),
              (''us.amazon.nova-lite-v1:0'', worker_request [''two''] ''p'')])
   \<and> worker_stage echo_client ''p'' [(''d/AMZN-Q1-2023.pdf'', [''one'', ''uno'']), (''d/AMZN-Q2-2023.pdf'', [''two''])] [1, 0]
     = Some (Inr (''<info quarter='' @ [CHR 0x22] @ ''Q1'' @ [CHR 0x22] @ ''>one</info>'' @ [CHR 0x0A]
                  @ ''<info quarter='' @ [CHR 0x22] @ ''Q2'' @ [CHR 0x22] @ ''>two</info>'' @ [CHR 0x0A]),
             [(''us.amazon.nova-lite-v1:0'', worker_request [''two''] ''p''),
              (''us.amazon.nova-lite-v1:0'', worker_request [''one'', ''uno''] ''p'')])"
proof -
  let ?docs = "[(''d/AMZN-Q1-2023.pdf'', [''one'', ''uno'']), (''d/AMZN-Q2-2023.pdf'', [''two''])]"
  let ?c1 = "[(''us.amazon.nova-lite-v1:0'', worker_request [''one'', ''uno''] ''p''),
              (''us.amazon.nova-lite-v1:0'', worker_request [''two''] ''p'')]"
  let ?c2 = "[(''us.amazon.nova-lite-v1:0'', worker_request [''two''] ''p''),
              (''us.amazon.nova-lite-v1:0'', worker_request [''one'', ''uno''] ''p'')]"
  let ?info = "\<lambda>i::nat. if i = 0 then ''one'' else ''two''"
  let ?quarter = "\<lambda>i::nat. if i = 0 then ''Q1'' else ''Q2''"
  have s1: "set [0, 1 :: nat] = {..<length ?docs}" and s2: "set [1, 0 :: nat] = {..<length ?docs}"
    by auto
  obtain r1 c1 where r1: "worker_stage echo_client ''p'' ?docs [0, 1] = Some (r1, c1)"
    using worker_stage_complete [OF _ s1] by fastforce
  obtain r2 c2 where r2: "worker_stage echo_client ''p'' ?docs [1, 0] = Some (r2, c2)"
    using worker_stage_complete [OF _ s2] by fastforce
  have c1: "c1 = ?c1" using worker_stage_returns(2) [OF r1] by simp
  have c2: "c2 = ?c2" using worker_stage_returns(2) [OF r2] by simp
  have q1: "quarter_of ''d/AMZN-Q1-2023.pdf'' = Inr ''Q1''" by code_simp
  have q2: "quarter_of ''d/AMZN-Q2-2023.pdf'' = Inr ''Q2''" by code_simp
  have e1: "echo_client ''us.amazon.nova-lite-v1:0'' (worker_request [''one'', ''uno''] ''p'') = Inr ''one''"
    by (simp add: echo_client_def worker_request_def)
  have e2: "echo_client ''us.amazon.nova-lite-v1:0'' (worker_request [''two''] ''p'') = Inr ''two''"
    by (simp add: echo_client_def worker_request_def)
  have hyp: "\<forall>i<length ?docs.
           echo_client ''us.amazon.nova-lite-v1:0'' (worker_request (snd (?docs ! i)) ''p'') = Inr (?info i)
           \<and> quarter_of (fst (?docs ! i)) = Inr (?quarter i)"
    using q1 q2 e1 e2 by (simp add: less_Suc_eq)
  from combined_context_in_input_order [OF r1 r2, of ?info ?quarter] hyp
  have "r1 = r2"
    and "r1 = Inr (concat (map (\<lambda>i. ''<info quarter='' @ [CHR 0x22] @ ?quarter i @ [CHR 0x22] @ ''>''
                                     @ ?info i @ ''</info>'' @ [CHR 0x0A]) [0..<length ?docs]))"
    by blast+
  moreover have "[0..<length ?docs] = [0, 1]" by (simp add: upt_rec)
  ultimately have "r1 = Inr (''<info quarter='' @ [CHR 0x22] @ ''Q1'' @ [CHR 0x22] @ ''>one</info>'' @ [CHR 0x0A]
                  @ ''<info quarter='' @ [CHR 0x22] @ ''Q2'' @ [CHR 0x22] @ ''>two</info>'' @ [CHR 0x0A])"
    and "r2 = r1"
    by simp_all
  with r1 r2 c1 c2 show ?thesis by simp
qed

text \<open>
  C8, as stated, fails on a run in which a worker call raises: with two documents, an
  endpoint on which every call raises, and a pool that had run only the first task
  when its exception reached the main thread, the second task is cancelled and one
  request is issued, not two.
\<close>

theorem worker_failure_cancels_pending_counterexample:
  "worker_stage failing_client ''p''
     [(''d/AMZN-Q1-2023.pdf'', [''one'', ''uno'']), (''d/AMZN-Q2-2023.pdf'', [''two''])] [0]
     = Some (Inl (ClientError ''throttled''),
             [(''us.amazon.nova-lite-v1:0'', worker_request [''one'', ''uno''] ''p'')])"
  by code_simp

text \<open>
  C8, amended. In every finished run of the worker stage at most one request is issued
  per document; the request of a document holds the images of all its pages, in page
  order, followed by the shared extraction prompt, and nothing else. When no worker
  call raises, every document has its request: N requests for N documents.
\<close>

theorem worker_requests_per_document:
  assumes "worker_stage client lite_prompt pdf_results sched = Some (r, calls)"
  shows "calls = map (\<lambda>i. (''us.amazon.nova-lite-v1:0'',
                          \<lparr>messages =
                             [\<lparr>role = ''user'',
                               content = map (\<lambda>png. Image png ''png'') (snd (pdf_results ! i))
                                         @ [Text lite_prompt]\<rparr>],
                           inferenceConfig = None\<rparr>)) sched
    \<and> distinct sched \<and> set sched \<subseteq> {..<length pdf_results}
    \<and> length calls \<le> length pdf_results
    \<and> ((\<forall>i<length pdf_results.
           \<not> isl (client ''us.amazon.nova-lite-v1:0'' (worker_request (snd (pdf_results ! i)) lite_prompt)))
        \<longrightarrow> set sched = {..<length pdf_results} \<and> length calls = length pdf_results)"
proof -
  note R = worker_stage_returns [OF assms]
  let ?n = "length pdf_results"
  have calls: "calls = map (\<lambda>i. (''us.amazon.nova-lite-v1:0'',
                          \<lparr>messages =
                             [\<lparr>role = ''user'',
                               content = map (\<lambda>png. Image png ''png'') (snd (pdf_results ! i))
                                         @ [Text lite_prompt]\<rparr>],
                           inferenceConfig = None\<rparr>)) sched"
    using R(2) by (simp add: worker_request_def)
  have d: "distinct sched" using R(3) by (simp add: schedule_ok_def)
  have sub: "set sched \<subseteq> {..<?n}" using R(3) by (rule schedule_ok_set)
  have "card (set sched) \<le> card {..<?n}" using sub by (intro card_mono) simp_all
  with d have le: "length sched \<le> ?n" by (simp add: distinct_card)
  have all: "set sched = {..<?n} \<and> length calls = ?n"
    if ok: "\<forall>i<?n. \<not> isl (client ''us.amazon.nova-lite-v1:0'' (worker_request (snd (pdf_results ! i)) lite_prompt))"
  proof -
    have "in_input_order (map (\<lambda>x. fst (extract_info client (fst x) (snd x) lite_prompt)) pdf_results)
            = Inr (map (\<lambda>i. (projr (client ''us.amazon.nova-lite-v1:0'' (worker_request (snd (pdf_results ! i)) lite_prompt)),
                               fst (pdf_results ! i))) [0..<?n])"
      unfolding worker_outcomes using ok
      by (intro in_input_order_all) (auto split: sum.splits)
    then have s: "set sched = {..<?n}" using R(4) by simp
    with d have "length sched = ?n" by (metis card_lessThan distinct_card)
    with s calls show ?thesis by simp
  qed
  from calls d sub le all show ?thesis by (simp add: calls)
qed

theorem worker_requests_per_document_witness:
  "worker_stage echo_client ''p''
     [(''d/AMZN-Q1-2023.pdf'', [''one'', ''uno'']), (''d/AMZN-Q2-2023.pdf'', [''two''])] [1, 0]
     = Some (Inr (info_block ''Q1'' ''one'' @ info_block ''Q2'' ''two''),
             [(''us.amazon.nova-lite-v1:0'',
               \<lparr>messages = [\<lparr>role = ''user'', content = [Image ''two'' ''png'', Text ''p'']\<rparr>],
                inferenceConfig = None\<rparr>),
              (''us.amazon.nova-lite-v1:0'',
               \<lparr>messages = [\<lparr>role = ''user'',
                              content = [Image ''one'' ''png'', Image ''uno'' ''png'', Text ''p'']\<rparr>],
                inferenceConfig = None\<rparr>)])"
proof -
  let ?docs = "[(''d/AMZN-Q1-2023.pdf'', [''one'', ''uno'']), (''d/AMZN-Q2-2023.pdf'', [''two''])]"
  have run: "worker_stage echo_client ''p'' ?docs [1, 0]
               = Some (Inr (info_block ''Q1'' ''one'' @ info_block ''Q2'' ''two''),
                       [(''us.amazon.nova-lite-v1:0'', worker_request [''two''] ''p''),
                        (''us.amazon.nova-lite-v1:0'', worker_request [''one'', ''uno''] ''p'')])"
    by code_simp
  from worker_requests_per_document [OF run] run show ?thesis by simp
qed

lemma in_input_order_Inl_mem: "in_input_order outs = Inl e \<Longrightarrow> Inl e \<in> set outs"
proof (induction outs)
  case Nil
  then show ?case by simp
next
  case (Cons out outs)
  then show ?case by (cases out) (auto split: sum.splits)
qed

lemma in_input_order_raises:
  assumes "i < length outs" and "outs ! i = Inl e"
  shows "\<exists>j<length outs. \<exists>e'. outs ! j = Inl e' \<and> in_input_order outs = Inl e'"
proof -
  from assms have "Inl e \<in> set outs" by (metis nth_mem)
  then obtain e' where e': "in_input_order outs = Inl e'"
    using in_input_order_failure by blast
  then have "Inl e' \<in> set outs" by (rule in_input_order_Inl_mem)
  then obtain j where "j < length outs" and "outs ! j = Inl e'"
    by (auto simp: in_set_conv_nth)
  with e' show ?thesis by blast
qed

lemma worker_outcome_Inl:
  assumes "j < length pdf_results"
  shows "(map (\<lambda>x. fst (extract_info client (fst x) (snd x) lite_prompt)) pdf_results ! j = Inl e)
           = (client ''us.amazon.nova-lite-v1:0'' (worker_request (snd (pdf_results ! j)) lite_prompt) = Inl e)"
  using assms by (simp add: extract_info_def Let_def split: sum.splits)

text \<open>
  C10. When the model call of some document raises, no finished run of the worker stage
  produces a combined context: the stage ends with the exception of a worker call (that
  of the first failing document in input order), and a run in which every task ran does
  end so. No failure is kept apart per document.
\<close>

theorem worker_failure_aborts_aggregation:
  assumes "i < length pdf_results"
    and "client ''us.amazon.nova-lite-v1:0'' (worker_request (snd (pdf_results ! i)) lite_prompt) = Inl e"
  shows "(\<forall>r calls. worker_stage client lite_prompt pdf_results sched = Some (r, calls) \<longrightarrow>
            (\<exists>j<length pdf_results. \<exists>e'.
               client ''us.amazon.nova-lite-v1:0'' (worker_request (snd (pdf_results ! j)) lite_prompt) = Inl e'
               \<and> r = Inl e'))
    \<and> (distinct sched \<and> set sched = {..<length pdf_results} \<longrightarrow>
          (\<exists>e' calls. worker_stage client lite_prompt pdf_results sched = Some (Inl e', calls)))"
proof -
  define outs where "outs = map (\<lambda>x. fst (extract_info client (fst x) (snd x) lite_prompt)) pdf_results"
  have len: "length outs = length pdf_results" by (simp add: outs_def)
  have "outs ! i = Inl e"
    unfolding outs_def using assms by (simp only: worker_outcome_Inl)
  with assms(1) len obtain j e' where j: "j < length pdf_results"
    and oj: "outs ! j = Inl e'" and e': "in_input_order outs = Inl e'"
    using in_input_order_raises [of i outs e] by auto
  from oj j have cj: "client ''us.amazon.nova-lite-v1:0'' (worker_request (snd (pdf_results ! j)) lite_prompt) = Inl e'"
    unfolding outs_def by (simp only: worker_outcome_Inl)
  have res: "r = Inl e'"
    if "worker_stage client lite_prompt pdf_results sched = Some (r, calls)" for r calls
    using worker_stage_returns(1) [OF that] e' by (simp add: outs_def)
  show ?thesis
  proof (intro conjI allI impI)
    fix r calls
    assume "worker_stage client lite_prompt pdf_results sched = Some (r, calls)"
    then have "r = Inl e'" by (rule res)
    with j cj show "\<exists>j<length pdf_results. \<exists>e'.
               client ''us.amazon.nova-lite-v1:0'' (worker_request (snd (pdf_results ! j)) lite_prompt) = Inl e'
               \<and> r = Inl e'"
      by (intro exI [of _ j] exI [of _ e'] conjI)
  next
    assume "distinct sched \<and> set sched = {..<length pdf_results}"
    then obtain r calls where run: "worker_stage client lite_prompt pdf_results sched = Some (r, calls)"
      using worker_stage_complete [of sched pdf_results client lite_prompt] by (elim conjE) blast
    from res [OF run] run
    show "\<exists>e' calls. worker_stage client lite_prompt pdf_results sched = Some (Inl e', calls)"
      by (intro exI [of _ e'] exI [of _ calls]) simp
  qed
qed


theorem worker_failure_aborts_aggregation_witness:
  "worker_stage failing_client ''p''
     [(''d/AMZN-Q1-2023.pdf'', [''one'', ''uno'']), (''d/AMZN-Q2-2023.pdf'', [''two''])] [1, 0]
     = Some (Inl (ClientError ''throttled''),
             [(''us.amazon.nova-lite-v1:0'', worker_request [''two''] ''p''),
              (''us.amazon.nova-lite-v1:0'', worker_request [''one'', ''uno''] ''p'')])"
proof -
  let ?docs = "[(''d/AMZN-Q1-2023.pdf'', [''one'', ''uno'']), (''d/AMZN-Q2-2023.pdf'', [''two''])]"
  have i: "(1::nat) < length ?docs" by simp
  have f: "failing_client ''us.amazon.nova-lite-v1:0'' (worker_request (snd (?docs ! 1)) ''p'')
             = Inl (ClientError ''throttled'')"
    by (simp add: failing_client_def)
  have s: "distinct [1, 0 :: nat] \<and> set [1, 0 :: nat] = {..<length ?docs}" by auto
  note T = worker_failure_aborts_aggregation
    [where i = 1 and pdf_results = ?docs and client = failing_client and lite_prompt = "''p''"
       and e = "ClientError ''throttled''" and sched = "[1, 0]", OF i f]
  from T [THEN conjunct2, THEN mp, OF s]
  obtain e' calls where run: "worker_stage failing_client ''p'' ?docs [1, 0] = Some (Inl e', calls)"
    by (elim exE)
  from T [THEN conjunct1, THEN spec, THEN spec, THEN mp, OF run]
  have "e' = ClientError ''throttled''" by (elim exE conjE) (simp add: failing_client_def)
  moreover have "calls = [(''us.amazon.nova-lite-v1:0'', worker_request [''two''] ''p''),
              (''us.amazon.nova-lite-v1:0'', worker_request [''one'', ''uno''] ''p'')]"
    using worker_stage_returns(2) [OF run] by simp
  ultimately show ?thesis using run by simp
qed

section \<open>Fetching and rasterizing\<close>
















text \<open>
  C5. A document that cannot be rasterized is not set apart: \<open>process_pdf\<close> lets the
  exception of \<open>pdf_to_base64_pngs\<close> through, and taking the results of the pool raises
  it again. With a first document that cannot be opened and a readable second one, the
  stage ends with the exception and no document reaches the worker stage.
\<close>

theorem rasterizer_failure_aborts_stage:
  "pdf_stage stub_http stub_fitz_open stub_encode
     [''https://h/x/corrupt-Q1-2023.pdf'', ''https://h/x/AMZN-Q2-2023.pdf''] ''d'' [0, 1]
     = Some (Inl (RuntimeError ''cannot open broken document''),
             [''https://h/x/corrupt-Q1-2023.pdf'', ''https://h/x/AMZN-Q2-2023.pdf''])"
  by code_simp

text \<open>
  C4. The four configured URLs, downloaded and rasterized in input order, give four
  labelled blocks in input order, but the labels of the first two are \<open>2023\<close>, not
  \<open>Q1\<close> and \<open>Q2\<close>: the label is the second token of the file name, and the names of
  the first two documents start with the quarter.
\<close>

theorem configured_documents_labels:
  "pdf_stage stub_http stub_fitz_open stub_encode pdf_urls folder [0, 1, 2, 3]
     = Some (Inr [(''../downloads/pdfs/Q1-2023-Amazon-Earnings-Release.pdf'', [''page of Q1-2023-Amazon-Earnings-Release.pdf'']),
                  (''../downloads/pdfs/Q2-2023-Amazon-Earnings-Release.pdf'', [''page of Q2-2023-Amazon-Earnings-Release.pdf'']),
                  (''../downloads/pdfs/AMZN-Q3-2023-Earnings-Release.pdf'', [''page of AMZN-Q3-2023-Earnings-Release.pdf'']),
                  (''../downloads/pdfs/AMZN-Q4-2023-Earnings-Release.pdf'', [''page of AMZN-Q4-2023-Earnings-Release.pdf''])],
             pdf_urls)
   \<and> map_option fst (worker_stage echo_client ''p''
            [(''../downloads/pdfs/Q1-2023-Amazon-Earnings-Release.pdf'', [''page of Q1-2023-Amazon-Earnings-Release.pdf'']),
             (''../downloads/pdfs/Q2-2023-Amazon-Earnings-Release.pdf'', [''page of Q2-2023-Amazon-Earnings-Release.pdf'']),
             (''../downloads/pdfs/AMZN-Q3-2023-Earnings-Release.pdf'', [''page of AMZN-Q3-2023-Earnings-Release.pdf'']),
             (''../downloads/pdfs/AMZN-Q4-2023-Earnings-Release.pdf'', [''page of AMZN-Q4-2023-Earnings-Release.pdf''])]
            [0, 1, 2, 3])
     = Some (Inr (info_block ''2023'' ''page of Q1-2023-Amazon-Earnings-Release.pdf''
                  @ info_block ''2023'' ''page of Q2-2023-Amazon-Earnings-Release.pdf''
                  @ info_block ''Q3'' ''page of AMZN-Q3-2023-Earnings-Release.pdf''
                  @ info_block ''Q4'' ''page of AMZN-Q4-2023-Earnings-Release.pdf''))"
proof (rule conjI)
  show "pdf_stage stub_http stub_fitz_open stub_encode pdf_urls folder [0, 1, 2, 3]
     = Some (Inr [(''../downloads/pdfs/Q1-2023-Amazon-Earnings-Release.pdf'', [''page of Q1-2023-Amazon-Earnings-Release.pdf'']),
                  (''../downloads/pdfs/Q2-2023-Amazon-Earnings-Release.pdf'', [''page of Q2-2023-Amazon-Earnings-Release.pdf'']),
                  (''../downloads/pdfs/AMZN-Q3-2023-Earnings-Release.pdf'', [''page of AMZN-Q3-2023-Earnings-Release.pdf'']),
                  (''../downloads/pdfs/AMZN-Q4-2023-Earnings-Release.pdf'', [''page of AMZN-Q4-2023-Earnings-Release.pdf''])],
             pdf_urls)"
    by code_simp
  show "map_option fst (worker_stage echo_client ''p''
            [(''../downloads/pdfs/Q1-2023-Amazon-Earnings-Release.pdf'', [''page of Q1-2023-Amazon-Earnings-Release.pdf'']),
             (''../downloads/pdfs/Q2-2023-Amazon-Earnings-Release.pdf'', [''page of Q2-2023-Amazon-Earnings-Release.pdf'']),
             (''../downloads/pdfs/AMZN-Q3-2023-Earnings-Release.pdf'', [''page of AMZN-Q3-2023-Earnings-Release.pdf'']),
             (''../downloads/pdfs/AMZN-Q4-2023-Earnings-Release.pdf'', [''page of AMZN-Q4-2023-Earnings-Release.pdf''])]
            [0, 1, 2, 3])
     = Some (Inr (info_block ''2023'' ''page of Q1-2023-Amazon-Earnings-Release.pdf''
                  @ info_block ''2023'' ''page of Q2-2023-Amazon-Earnings-Release.pdf''
                  @ info_block ''Q3'' ''page of AMZN-Q3-2023-Earnings-Release.pdf''
                  @ info_block ''Q4'' ''page of AMZN-Q4-2023-Earnings-Release.pdf''))"
    by code_simp
qed

end
